theory Spec2Isabelle
  imports Main "HOL-Library.Word"
begin

unbundle bit_operations_syntax

section \<open>Machine integers, byte streams and errors\<close>

text \<open>
  Go's \<open>uint8\<close>, \<open>uint16\<close>, \<open>int32\<close>/\<open>uint32\<close> and \<open>uint64\<close> are words of that width.
  A \<open>float64\<close> or \<open>float32\<close> is only ever touched through \<open>math.Float64bits\<close> /
  \<open>math.Float64frombits\<close> (and the 32-bit pair), which are bit casts, so a float is
  modelled by its IEEE-754 bit pattern: a 64-bit or a 32-bit word.
  An \<open>io.Reader\<close> is the list of bytes it still has to deliver; reading from an
  exhausted reader is \<open>io.EOF\<close>.
\<close>

type_synonym byte = "8 word"
type_synonym uint16 = "16 word"
type_synonym int32 = "32 word"
type_synonym uint32 = "32 word"
type_synonym uint64 = "64 word"

datatype error =
    EOF
  | ErrUnexpectedEOF
  | ErrClosedPipe
  | VarIntTooBig
  | ReadPacketLength error
  | InvalidPacketLength int32
  | ReadPacketData error
  | ReadPacketID error
  | FrameDataTooLarge nat
  | PayloadTooSmall
  | FrameLengthExceeds nat nat
  | EncodeFrameError error
  | WritePacketError error
  | ConnWriteError
  | ErrTimeout
  | SendSYN error
  | ContextDone
  | SynAckTimeout

section \<open>VarInt codec (protocol/minecraft/varint.go)\<close>

text \<open>
  \<open>ReadVarInt\<close>: the loop reads one byte at a time; \<open>value\<close> is an \<open>int32\<close>,
  \<open>position\<close> a \<open>uint\<close> that only takes the values 0, 7, .., 28 before the
  "too big" exit. The result carries the bytes left in the reader.
\<close>

fun ReadVarInt_loop :: "byte list \<Rightarrow> int32 \<Rightarrow> nat \<Rightarrow> error + (int32 \<times> byte list)" where
  "ReadVarInt_loop [] val position = Inl EOF"
| "ReadVarInt_loop (b # r) val position =
     (let val' = val OR push_bit position (ucast (b AND 0x7F)) in
      if b AND 0x80 = 0 then Inr (val', r)
      else if position + 7 \<ge> 32 then Inl VarIntTooBig
      else ReadVarInt_loop r val' (position + 7))"

definition ReadVarInt :: "byte list \<Rightarrow> error + (int32 \<times> byte list)" where
  "ReadVarInt r = ReadVarInt_loop r 0 0"

text \<open>
  \<open>WriteVarInt\<close>: \<open>value\<close> is an \<open>int32\<close>, so \<open>value >>= 7\<close> is Go's arithmetic
  (sign-preserving) shift, \<open>signed_drop_bit\<close>. The loop has no bound of its own, so it
  is a partial function: \<open>None\<close> means that the loop never leaves. The result is the
  buffer handed to \<open>w.Write\<close>.
\<close>

partial_function (option) WriteVarInt_loop :: "int32 \<Rightarrow> byte list \<Rightarrow> byte list option" where
  "WriteVarInt_loop val buf =
     (if val AND NOT 0x7F = 0 then Some (buf @ [ucast val])
      else WriteVarInt_loop (signed_drop_bit 7 val) (buf @ [ucast (val AND 0x7F OR 0x80)]))"

definition WriteVarInt :: "int32 \<Rightarrow> byte list option" where
  "WriteVarInt val = WriteVarInt_loop val []"

definition MaxVarIntLength :: nat where
  "MaxVarIntLength = 5"

section \<open>Packet envelope (protocol/minecraft, \<open>ReadPacketRaw\<close>)\<close>

text \<open>
  A \<open>PacketType\<close> is an \<open>int32\<close>. \<open>ReadPacketRaw\<close> returns the type tag, the payload
  and, in the model, the bytes the reader still holds afterwards. \<open>io.ReadFull\<close> on a
  reader that holds fewer bytes than asked fails with \<open>io.EOF\<close> when it holds none and
  with \<open>io.ErrUnexpectedEOF\<close> otherwise. The second \<open>ReadVarInt\<close> runs on a
  \<open>bytes.Reader\<close> over the packet's own bytes only.
\<close>

type_synonym PacketType = int32

definition PacketTypePlayerMove :: PacketType where
  "PacketTypePlayerMove = 0x1A"

definition PacketTypeCustomPayload :: PacketType where
  "PacketTypeCustomPayload = 0x12"

definition ReadFull :: "byte list \<Rightarrow> nat \<Rightarrow> error + (byte list \<times> byte list)" where
  "ReadFull r n =
     (if n \<le> length r then Inr (take n r, drop n r)
      else if r = [] then Inl EOF else Inl ErrUnexpectedEOF)"

definition ReadPacketRaw :: "byte list \<Rightarrow> error + (PacketType \<times> byte list \<times> byte list)" where
  "ReadPacketRaw r =
     (case ReadVarInt r of
        Inl err \<Rightarrow> Inl (ReadPacketLength err)
      | Inr (len, r1) \<Rightarrow>
          if sint len \<le> 0 \<or> sint len > 2097151 then Inl (InvalidPacketLength len)
          else
            (case ReadFull r1 (nat (sint len)) of
               Inl err \<Rightarrow> Inl (ReadPacketData err)
             | Inr (packetData, r2) \<Rightarrow>
                 (case ReadVarInt packetData of
                    Inl err \<Rightarrow> Inl (ReadPacketID err)
                  | Inr (packetID, remainingData) \<Rightarrow> Inr (packetID, remainingData, r2))))"

section \<open>Frames (protocol/steganography/frame.go)\<close>

record Frame =
  StreamID :: uint16
  Sequence :: uint16
  Flags :: byte
  Length :: uint16
  Data :: "byte list"

definition FlagSYN :: byte where "FlagSYN = 0x01"
definition FlagACK :: byte where "FlagACK = 0x02"
definition FlagFIN :: byte where "FlagFIN = 0x04"
definition FlagRST :: byte where "FlagRST = 0x08"
definition FlagPSH :: byte where "FlagPSH = 0x10"

definition HeaderSize :: nat where
  "HeaderSize = 7"

definition HasFlag :: "Frame \<Rightarrow> byte \<Rightarrow> bool" where
  "HasFlag f flag = (Flags f AND flag \<noteq> 0)"

section \<open>Big-endian byte order (\<open>encoding/binary\<close>) and slices\<close>

text \<open>
  \<open>binary.BigEndian\<close>'s accessors index the slice they are given; every call in the
  steganography package is on a slice that the caller has made long enough.
  \<open>slice xs i j\<close> is \<open>xs[i:j]\<close>, and \<open>padded n xs\<close> is a fresh zeroed buffer of
  \<open>n\<close> bytes after \<open>copy(padded, xs)\<close>.
\<close>

definition PutUint16 :: "uint16 \<Rightarrow> byte list" where
  "PutUint16 v = [ucast (drop_bit 8 v), ucast v]"

definition PutUint32 :: "uint32 \<Rightarrow> byte list" where
  "PutUint32 v = [ucast (drop_bit 24 v), ucast (drop_bit 16 v), ucast (drop_bit 8 v), ucast v]"

definition Uint16 :: "byte list \<Rightarrow> uint16" where
  "Uint16 b = ucast (b ! 1) OR push_bit 8 (ucast (b ! 0))"

definition Uint32 :: "byte list \<Rightarrow> uint32" where
  "Uint32 b = ucast (b ! 3) OR push_bit 8 (ucast (b ! 2)) OR push_bit 16 (ucast (b ! 1))
     OR push_bit 24 (ucast (b ! 0))"

definition slice :: "'a list \<Rightarrow> nat \<Rightarrow> nat \<Rightarrow> 'a list" where
  "slice xs i j = take (j - i) (drop i xs)"

definition padded :: "nat \<Rightarrow> byte list \<Rightarrow> byte list" where
  "padded n xs = take n (xs @ replicate n 0)"

section \<open>Disguise packets (protocol/minecraft/packets/c2s)\<close>

text \<open>
  The fields of \<open>PlayerMovePacket\<close> (\<open>X\<close>, \<open>Y\<close>, \<open>Z\<close>, \<open>Yaw\<close>, \<open>Pitch\<close>,
  \<open>Flags\<close>) and of \<open>CustomPayloadPacket\<close> (\<open>Channel\<close>, \<open>Data\<close>) carry a prefix
  here, since \<open>Flags\<close> and \<open>Data\<close> are fields of \<open>Frame\<close> too. The interface
  \<open>minecraft.Packet\<close> has these two implementations on the multiplexer's paths.
\<close>

record PlayerMovePacket =
  pm_X :: uint64
  pm_Y :: uint64
  pm_Z :: uint64
  pm_Yaw :: uint32
  pm_Pitch :: uint32
  pm_Flags :: byte

record CustomPayloadPacket =
  cp_Channel :: string
  cp_Data :: "byte list"

datatype Packet = PlayerMove PlayerMovePacket | CustomPayload CustomPayloadPacket

section \<open>Steganographic encoder (protocol/steganography/encoder.go)\<close>

text \<open>
  One call of \<open>EncodeFrame\<close> draws five floats and one flags value from the
  encoder's random source; \<open>RandomBase\<close> holds what one call draws (the floats by their
  bit patterns).
\<close>

record RandomBase =
  baseX :: uint64
  baseY :: uint64
  baseZ :: uint64
  baseYaw :: uint32
  basePitch :: uint32
  randFlags :: byte

definition MaxDataPerPlayerMove :: int where
  "MaxDataPerPlayerMove = 10"

definition encodeDataInDouble :: "uint64 \<Rightarrow> byte list \<Rightarrow> uint64" where
  "encodeDataInDouble baseValue data =
     (let bits = baseValue AND 0xFFFFFFFF00000000;
          dataValue = (if length data \<ge> 4 then Uint32 data else Uint32 (padded 4 data))
      in bits OR ucast dataValue)"

definition encodeDataInFloat :: "uint32 \<Rightarrow> byte list \<Rightarrow> uint32" where
  "encodeDataInFloat baseValue data =
     (let bits = baseValue AND 0xFFFF0000;
          dataValue = (if length data \<ge> 2 then Uint16 data
                       else if length data = 1 then ucast (data ! 0) else 0)
      in bits OR ucast dataValue)"

text \<open>
  The payload stream: the 7-byte header followed by \<open>Data\<close>, as both encoders build
  it. The length field is \<open>uint16(len(frame.Data))\<close>, not \<open>frame.Length\<close>.
\<close>

definition payloadStream :: "Frame \<Rightarrow> byte list" where
  "payloadStream frame =
     PutUint16 (StreamID frame) @ PutUint16 (Sequence frame) @ [Flags frame]
       @ PutUint16 (of_nat (length (Data frame))) @ Data frame"

definition EncodeFrame :: "RandomBase \<Rightarrow> Frame \<Rightarrow> error + PlayerMovePacket" where
  "EncodeFrame rb frame =
     (if int (length (Data frame)) > MaxDataPerPlayerMove
      then Inl (FrameDataTooLarge (length (Data frame)))
      else
        (let encodedData = payloadStream frame; n = length encodedData in
         Inr \<lparr>
           pm_X = (if n \<ge> 4 then encodeDataInDouble (baseX rb) (slice encodedData 0 4)
                   else baseX rb),
           pm_Y = (if n \<ge> 8 then encodeDataInDouble (baseY rb) (slice encodedData 4 8)
                   else if n > 4 then encodeDataInDouble (baseY rb) (padded 4 (drop 4 encodedData))
                   else baseY rb),
           pm_Z = (if n \<ge> 12 then encodeDataInDouble (baseZ rb) (slice encodedData 8 12)
                   else if n > 8 then encodeDataInDouble (baseZ rb) (padded 4 (drop 8 encodedData))
                   else baseZ rb),
           pm_Yaw = (if n \<ge> 14 then encodeDataInFloat (baseYaw rb) (slice encodedData 12 14)
                     else if n > 12 then encodeDataInFloat (baseYaw rb) (padded 2 (drop 12 encodedData))
                     else baseYaw rb),
           pm_Pitch = (if n \<ge> 16 then encodeDataInFloat (basePitch rb) (slice encodedData 14 16)
                       else if n > 14 then encodeDataInFloat (basePitch rb) (padded 2 (drop 14 encodedData))
                       else basePitch rb),
           pm_Flags = (if n \<ge> 17 then (encodedData ! 16) AND 0x03 else randFlags rb) \<rparr>))"

definition EncodeFrameInCustomPayload :: "Frame \<Rightarrow> error + CustomPayloadPacket" where
  "EncodeFrameInCustomPayload frame =
     Inr \<lparr> cp_Channel = ''minecraft:brand'', cp_Data = payloadStream frame \<rparr>"

section \<open>Steganographic decoder (protocol/steganography/decoder.go)\<close>

definition decodeDataFromDouble :: "uint64 \<Rightarrow> uint32" where
  "decodeDataFromDouble bits = ucast (bits AND 0x00000000FFFFFFFF)"

definition decodeDataFromFloat :: "uint32 \<Rightarrow> uint16" where
  "decodeDataFromFloat bits = ucast (bits AND 0x0000FFFF)"

text \<open>
  Both decoders parse the header the same way; \<open>parseFrame\<close> is that common tail
  on the reconstructed bytes. With a zero length field \<open>Data\<close> stays \<open>nil\<close>, the
  empty list.
\<close>

definition parseFrame :: "byte list \<Rightarrow> error + Frame" where
  "parseFrame encodedData =
     (let dataLen = Uint16 (slice encodedData 5 7) in
      if dataLen > 0 \<and> HeaderSize + unat dataLen > length encodedData
      then Inl (FrameLengthExceeds (HeaderSize + unat dataLen) (length encodedData))
      else Inr \<lparr>
        StreamID = Uint16 (slice encodedData 0 2),
        Sequence = Uint16 (slice encodedData 2 4),
        Flags = encodedData ! 4,
        Length = dataLen,
        Data = (if dataLen > 0 then slice encodedData HeaderSize (HeaderSize + unat dataLen)
                else []) \<rparr>)"

definition DecodeFrame :: "PlayerMovePacket \<Rightarrow> error + Frame" where
  "DecodeFrame pkt =
     (let encodedData =
            PutUint32 (decodeDataFromDouble (pm_X pkt))
          @ PutUint32 (decodeDataFromDouble (pm_Y pkt))
          @ PutUint32 (decodeDataFromDouble (pm_Z pkt))
          @ PutUint16 (decodeDataFromFloat (pm_Yaw pkt))
          @ PutUint16 (decodeDataFromFloat (pm_Pitch pkt))
          @ [pm_Flags pkt]
      in if length encodedData < HeaderSize then Inl PayloadTooSmall
         else parseFrame encodedData)"

definition DecodeFrameFromCustomPayload :: "CustomPayloadPacket \<Rightarrow> error + Frame" where
  "DecodeFrameFromCustomPayload pkt =
     (if length (cp_Data pkt) < HeaderSize then Inl PayloadTooSmall
      else parseFrame (cp_Data pkt))"

section \<open>Packet selector (protocol/steganography/selector.go, the two-tier variant)\<close>

text \<open>
  The repository holds two variants of the selector; this is the one with the two
  disguises that the multiplexer can decode. \<open>dataSize\<close> is a Go \<open>int\<close>.
\<close>

definition SelectPacketType :: "int \<Rightarrow> PacketType" where
  "SelectPacketType dataSize =
     (if dataSize > MaxDataPerPlayerMove then PacketTypeCustomPayload
      else PacketTypePlayerMove)"

definition GetMaxPayload :: "PacketType \<Rightarrow> int" where
  "GetMaxPayload packetType =
     (if packetType = PacketTypeCustomPayload then 32760
      else if packetType = PacketTypePlayerMove then MaxDataPerPlayerMove
      else MaxDataPerPlayerMove)"

section \<open>Multiplexer send path (protocol/multiplexer/mux.go)\<close>

text \<open>
  The model is sequential: one goroutine runs one call from entry to return.
  \<open>streamsMu\<close>, the lock of the stream table, is part of the state, because one call
  chain takes it twice: \<open>Multiplexer.Close\<close> holds it while it calls
  \<open>Stream.Close\<close>, which ends in \<open>closeStream\<close>, which locks it again. Go's
  mutexes are not reentrant, so a \<open>Lock\<close> on a mutex that the running goroutine holds
  never returns; such a call has the result \<open>None\<close>. The flag \<open>streamsMu\<close> says
  that the caller of the modelled function holds the lock. The other mutexes
  (\<open>closedMu\<close>, \<open>nextIDMu\<close>, \<open>writeMu\<close>, \<open>stateMu\<close>, \<open>mu\<close>) are never asked
  for by a goroutine that holds them, so they are not part of the state.

  A \<open>*Stream\<close> in the stream table is a pointer, here a \<open>ref\<close>; the stream objects
  themselves are passed to and returned from the methods that change them.
  The physical connection is the sequence of disguise packets handed to
  \<open>minecraft.WritePacket\<close> so far, oldest first, and \<open>connBroken\<close> says that writing
  to it fails. The encoder's random source is the sequence \<open>rand\<close> of the values its
  calls will draw, with \<open>randPos\<close> counting the calls made.
\<close>

type_synonym ref = nat

record Multiplexer =
  conn :: "Packet list"
  connBroken :: bool
  streams :: "uint16 \<rightharpoonup> ref"
  nextStreamID :: uint16
  streamsMu :: bool
  closed :: bool
  rand :: "nat \<Rightarrow> RandomBase"
  randPos :: nat

definition NewMultiplexer :: "(nat \<Rightarrow> RandomBase) \<Rightarrow> Multiplexer" where
  "NewMultiplexer rnd =
     \<lparr> conn = [], connBroken = False, streams = Map.empty, nextStreamID = 0,
       streamsMu = False, closed = False, rand = rnd, randPos = 0 \<rparr>"

text \<open>The \<open>switch packetType\<close> of \<open>sendFrame\<close>: select the disguise and encode.\<close>

definition sendFrame_encode :: "RandomBase \<Rightarrow> Frame \<Rightarrow> error + Packet" where
  "sendFrame_encode rb frame =
     (let packetType = SelectPacketType (int (length (Data frame))) in
      if packetType = PacketTypePlayerMove then map_sum id PlayerMove (EncodeFrame rb frame)
      else if packetType = PacketTypeCustomPayload
        then map_sum id CustomPayload (EncodeFrameInCustomPayload frame)
      else map_sum id PlayerMove (EncodeFrame rb frame))"

definition WritePacket :: "Multiplexer \<Rightarrow> Packet \<Rightarrow> error option \<times> Multiplexer" where
  "WritePacket m packet =
     (if connBroken m then (Some ConnWriteError, m)
      else (None, m\<lparr>conn := conn m @ [packet]\<rparr>))"

definition sendFrame :: "Multiplexer \<Rightarrow> Frame \<Rightarrow> error option \<times> Multiplexer" where
  "sendFrame m frame =
     (if closed m then (Some ErrClosedPipe, m)
      else
        (case sendFrame_encode (rand m (randPos m)) frame of
           Inl err \<Rightarrow> (Some (EncodeFrameError err), m)
         | Inr packet \<Rightarrow>
             (let m1 = (case packet of PlayerMove _ \<Rightarrow> m\<lparr>randPos := randPos m + 1\<rparr>
                                     | CustomPayload _ \<Rightarrow> m)
              in case WritePacket m1 packet of
                   (Some err, m2) \<Rightarrow> (Some (WritePacketError err), m2)
                 | (None, m2) \<Rightarrow> (None, m2))))"

text \<open>
  \<open>closeStream\<close> locks \<open>streamsMu\<close>, deletes the entry and unlocks; with the lock
  held by its caller it never gets past the \<open>Lock\<close>.
\<close>

definition closeStream :: "Multiplexer \<Rightarrow> uint16 \<Rightarrow> Multiplexer option" where
  "closeStream m streamID =
     (if streamsMu m then None
      else Some (m\<lparr>streams := (streams m)(streamID := None)\<rparr>))"

text \<open>The \<open>switch packetID\<close> of \<open>readLoop\<close>: the decoder for each disguise.\<close>

definition readLoop_decode :: "Packet \<Rightarrow> error + Frame" where
  "readLoop_decode packet =
     (case packet of
        PlayerMove pkt \<Rightarrow> DecodeFrame pkt
      | CustomPayload pkt \<Rightarrow> DecodeFrameFromCustomPayload pkt)"

section \<open>Virtual streams (protocol/multiplexer/stream.go)\<close>

text \<open>
  \<open>readBuf\<close> is a buffered channel of capacity 256: a queue, oldest chunk first.
  \<open>synAckCh\<close> (capacity 1) is the number of tokens it holds. \<open>closeCh\<close> is only ever
  closed, so it is the flag "has been closed"; \<open>closeOnce\<close> is the flag "has fired":
  the body of \<open>Close\<close> has been entered, and a later call does not run it again.
  The field \<open>id\<close> is \<open>stream_id\<close>.
\<close>

datatype StreamState =
  StreamStateIdle | StreamStateSYN | StreamStateOpen | StreamStateClosing | StreamStateClosed

record Stream =
  stream_id :: uint16
  sequence :: uint16
  readBuf :: "byte list list"
  synAckCh :: nat
  closeCh :: bool
  state :: StreamState
  closeOnce :: bool

definition readBufCap :: nat where
  "readBufCap = 256"

definition newStream :: "uint16 \<Rightarrow> Stream" where
  "newStream i =
     \<lparr> stream_id = i, sequence = 0, readBuf = [], synAckCh = 0, closeCh = False,
       state = StreamStateIdle, closeOnce = False \<rparr>"

text \<open>
  \<open>Stream.Read\<close> is one \<open>select\<close> over the queue, the close signal and the read
  deadline; Go picks any branch that is ready. The model returns every outcome the call
  can have: the number of bytes copied, the bytes themselves, the error, and the stream
  afterwards. \<open>n\<close> is \<open>len(p)\<close>; \<open>deadlineFired\<close> says that the deadline's timer
  delivers during the call. No outcome means that the call waits.
\<close>

definition Read_data :: "Stream \<Rightarrow> nat \<Rightarrow> byte list \<Rightarrow> byte list list
    \<Rightarrow> (nat \<times> byte list \<times> error option) \<times> Stream" where
  "Read_data s n data rest =
     (let k = min n (length data);
          s1 = s\<lparr>readBuf := rest\<rparr>;
          s2 = (if k < length data
                then (if length (readBuf s1) < readBufCap
                      then s1\<lparr>readBuf := readBuf s1 @ [drop k data]\<rparr>
                      else s1)
                else s1)
      in ((k, take k data, None), s2))"

definition Read :: "Stream \<Rightarrow> nat \<Rightarrow> bool
    \<Rightarrow> ((nat \<times> byte list \<times> error option) \<times> Stream) list" where
  "Read s n deadlineFired =
     (case readBuf s of [] \<Rightarrow> [] | data # rest \<Rightarrow> [Read_data s n data rest])
     @ (if closeCh s then [((0, [], Some EOF), s)] else [])
     @ (if deadlineFired then [((0, [], Some ErrTimeout), s)] else [])"

text \<open>
  \<open>Stream.Close\<close>: the body runs once (\<open>closeOnce\<close>); the result of sending the FIN
  frame is dropped. When the call returns, the error is the \<open>nil\<close> of the last line;
  it does not return when \<open>closeStream\<close> does not.
\<close>

definition Close :: "Stream \<Rightarrow> Multiplexer
    \<Rightarrow> (error option \<times> Stream \<times> Multiplexer) option" where
  "Close s m =
     (if closeOnce s then Some (None, s, m)
      else
        (let s1 = s\<lparr>closeOnce := True, state := StreamStateClosing\<rparr>;
             finFrame = \<lparr> StreamID = stream_id s1, Sequence = sequence s1, Flags = FlagFIN,
                          Length = 0, Data = [] \<rparr>;
             m1 = snd (sendFrame m finFrame);
             s2 = s1\<lparr>closeCh := True\<rparr>;
             s3 = s2\<lparr>state := StreamStateClosed\<rparr>
         in case closeStream m1 (stream_id s3) of
              None \<Rightarrow> None
            | Some m2 \<Rightarrow> Some (None, s3, m2)))"

text \<open>
  \<open>Stream.Write\<close>: the state check, then the chunking loop. \<open>chunkSize_of\<close> is the
  size of the next chunk for \<open>remaining\<close> bytes still to send.
\<close>

definition chunkSize_of :: "nat \<Rightarrow> nat" where
  "chunkSize_of remaining =
     (let chunkSize = GetMaxPayload (SelectPacketType (int remaining)) in
      if chunkSize > int remaining then remaining else nat chunkSize)"

function Write_loop :: "Stream \<Rightarrow> Multiplexer \<Rightarrow> byte list \<Rightarrow> nat
    \<Rightarrow> (nat \<times> error option) \<times> Stream \<times> Multiplexer" where
  "Write_loop s m p written =
     (if written < length p then
        (let chunkSize = chunkSize_of (length p - written);
             chunk = slice p written (written + chunkSize);
             frame = \<lparr> StreamID = stream_id s, Sequence = sequence s, Flags = 0,
                       Length = of_nat (length chunk), Data = chunk \<rparr>;
             s1 = s\<lparr>sequence := sequence s + 1\<rparr>;
             sent = sendFrame m frame
         in if fst sent \<noteq> None then ((written, fst sent), s1, snd sent)
            else Write_loop s1 (snd sent) p (written + chunkSize))
      else ((written, None), s, m))"
  by pat_completeness auto
termination
  by (relation "measure (\<lambda>(s, m, p, written). length p - written)")
     (auto simp: chunkSize_of_def GetMaxPayload_def SelectPacketType_def
        MaxDataPerPlayerMove_def Let_def split: if_splits)

definition Write :: "Stream \<Rightarrow> Multiplexer \<Rightarrow> byte list
    \<Rightarrow> (nat \<times> error option) \<times> Stream \<times> Multiplexer" where
  "Write s m p =
     (if state s = StreamStateClosed \<or> state s = StreamStateClosing
      then ((0, Some ErrClosedPipe), s, m)
      else Write_loop s m p 0)"

text \<open>
  \<open>Stream.handleFrame\<close>. The data branch ends in a \<open>select\<close> (queue has room, stream
  closed, 5 s timer), so the function returns every outcome it can have; the timer
  branch is taken when neither of the others is ready. No outcome means that the call
  does not return.
\<close>

definition handleFrame :: "Stream \<Rightarrow> Multiplexer \<Rightarrow> Frame \<Rightarrow> (Stream \<times> Multiplexer) list" where
  "handleFrame s m frame =
     (if HasFlag frame FlagACK \<and> HasFlag frame FlagSYN then
        [(s\<lparr>state := StreamStateOpen,
             synAckCh := (if synAckCh s < 1 then synAckCh s + 1 else synAckCh s)\<rparr>, m)]
      else if HasFlag frame FlagFIN then
        (case Close s m of None \<Rightarrow> [] | Some res \<Rightarrow> [snd res])
      else if HasFlag frame FlagRST then
        (case Close s m of None \<Rightarrow> [] | Some res \<Rightarrow> [snd res])
      else if Length frame > 0 \<and> length (Data frame) > 0 then
        (if length (readBuf s) < readBufCap
         then [(s\<lparr>readBuf := readBuf s @ [Data frame]\<rparr>, m)] else [])
        @ (if closeCh s then [(s, m)] else [])
        @ (if length (readBuf s) < readBufCap \<or> closeCh s then [] else [(s, m)])
      else [(s, m)])"

text \<open>
  \<open>Multiplexer.OpenStream\<close>. \<open>r\<close> is the pointer that \<open>newStream\<close> returns. The
  final \<open>select\<close> waits for another goroutine; \<open>wait\<close> says which branch ends it.
  On \<open>SynAckArrived\<close> the read loop has run \<open>handleFrame\<close> on the SYN-ACK, which
  opens the stream and leaves the token that the \<open>select\<close> consumes.
\<close>

datatype OpenWait = SynAckArrived | CtxDone | Timeout10s

definition OpenStream :: "Multiplexer \<Rightarrow> ref \<Rightarrow> OpenWait
    \<Rightarrow> ((error + Stream) \<times> Multiplexer) option" where
  "OpenStream m r wait =
     (if closed m then Some (Inl ErrClosedPipe, m)
      else
        (let streamID = nextStreamID m;
             m1 = m\<lparr>nextStreamID := nextStreamID m + 1\<rparr>;
             m2 = (if nextStreamID m1 = 0 then m1\<lparr>nextStreamID := 1\<rparr> else m1);
             stream = (newStream streamID)\<lparr>state := StreamStateSYN\<rparr>
         in if streamsMu m2 then None
            else
              (let m3 = m2\<lparr>streams := (streams m2)(streamID \<mapsto> r)\<rparr>;
                   synFrame = \<lparr> StreamID = streamID, Sequence = 0, Flags = FlagSYN,
                                Length = 0, Data = [] \<rparr>;
                   sent = sendFrame m3 synFrame
               in case fst sent of
                    Some err \<Rightarrow>
                      map_option (Pair (Inl (SendSYN err))) (closeStream (snd sent) streamID)
                  | None \<Rightarrow>
                      (case wait of
                         SynAckArrived \<Rightarrow>
                           Some (Inr (stream\<lparr>state := StreamStateOpen\<rparr>), snd sent)
                       | CtxDone \<Rightarrow>
                           map_option (Pair (Inl ContextDone))
                             (closeStream (snd sent) streamID)
                       | Timeout10s \<Rightarrow>
                           map_option (Pair (Inl SynAckTimeout))
                             (closeStream (snd sent) streamID)))))"

text \<open>
  \<open>Multiplexer.Close\<close>. \<open>ss\<close> are the stream objects that the table's pointers
  refer to, in the order in which the \<open>range\<close> over the table visits them;
  \<open>closeAll\<close> is that loop, run with \<open>streamsMu\<close> held. The result is the streams
  and the multiplexer afterwards, its connection closed (the error returned is that of
  \<open>conn.Close()\<close>).
\<close>

fun closeAll :: "Stream list \<Rightarrow> Multiplexer \<Rightarrow> (Stream list \<times> Multiplexer) option" where
  "closeAll [] m = Some ([], m)"
| "closeAll (s # ss) m =
     (case Close s m of
        None \<Rightarrow> None
      | Some (err, s', m') \<Rightarrow>
          (case closeAll ss m' of
             None \<Rightarrow> None
           | Some (ss', m'') \<Rightarrow> Some (s' # ss', m'')))"

definition Multiplexer_Close :: "Multiplexer \<Rightarrow> Stream list
    \<Rightarrow> (Stream list \<times> Multiplexer) option" where
  "Multiplexer_Close m ss =
     (if closed m then Some (ss, m)
      else
        (let m1 = m\<lparr>closed := True\<rparr> in
         if streamsMu m1 then None
         else
           (case closeAll ss (m1\<lparr>streamsMu := True\<rparr>) of
              None \<Rightarrow> None
            | Some (ss', m2) \<Rightarrow>
                Some (ss', m2\<lparr>streams := Map.empty, streamsMu := False,
                               connBroken := True\<rparr>))))"

section \<open>Concrete inputs\<close>

text \<open>A random source that always draws zeros, for evaluating the model.\<close>

definition zeroBase :: RandomBase where
  "zeroBase = \<lparr> baseX = 0, baseY = 0, baseZ = 0, baseYaw = 0, basePitch = 0, randFlags = 0 \<rparr>"

section \<open>VarInt: results\<close>

lemma WriteVarInt_loop_negative:
  "\<forall>val buf. sint val < 0 \<longrightarrow> WriteVarInt_loop val buf = None"
proof (induction rule: WriteVarInt_loop.fixp_induct)
  case 1
  show ?case by (rule ccpo.admissibleI) (auto simp: fun_eq_iff flat_lub_def fun_lub_def)
next
  case 2
  show ?case by simp
next
  case (3 f)
  show ?case
  proof (intro allI impI)
    fix val :: int32 and buf :: "byte list"
    assume neg: "sint val < 0"
    have b31: "bit val 31" using neg bit_last_iff [of val] by simp
    have "bit (val AND NOT 0x7F) 31" using b31 by (simp add: bit_simps)
    then have nz: "val AND NOT 0x7F \<noteq> 0" by auto
    have "bit (signed_drop_bit 7 val) 31" using b31 by (simp add: bit_simps)
    then have "sint (signed_drop_bit 7 val) < 0"
      using bit_last_iff [of "signed_drop_bit 7 val"] by simp
    with 3 nz show "(if val AND NOT 0x7F = 0 then Some (buf @ [ucast val])
      else f (signed_drop_bit 7 val) (buf @ [ucast (val AND 0x7F OR 0x80)])) = None"
      by simp
  qed
qed



text \<open>Bits of the constants \<open>0x80\<close> and \<open>0x7F\<close>.\<close>

lemma bit_128: "bit (128 :: int) n \<longleftrightarrow> n = 7"
proof -
  have "(128 :: int) = 2 ^ 7" by simp
  then show ?thesis by (simp only: bit_exp_iff) auto
qed

lemma bit_127: "bit (127 :: int) n \<longleftrightarrow> n < 7"
proof -
  have "(127 :: int) = mask 7" by (simp add: mask_eq_exp_minus_1)
  then show ?thesis by (simp only: bit_mask_iff) auto
qed

lemma take7_iff: "take_bit 7 v = v \<longleftrightarrow> unat v < 128" for v :: int32
proof -
  have "take_bit 7 v = v \<longleftrightarrow> unat (take_bit 7 v) = unat v"
    by (simp add: word_unat_eq_iff)
  also have "\<dots> \<longleftrightarrow> take_bit 7 (unat v) = unat v"
    by (simp add: unsigned_take_bit_eq)
  also have "\<dots> \<longleftrightarrow> unat v < 2 ^ 7"
    by (rule take_bit_nat_eq_self_iff)
  finally show ?thesis by simp
qed

lemma small_bits: "unat v < 128 \<Longrightarrow> bit v n \<Longrightarrow> n < 7" for v :: int32
proof -
  assume "unat v < 128" and b: "bit v n"
  then have "take_bit 7 v = v" by (simp add: take7_iff)
  then have "bit (take_bit 7 v) n" using b by simp
  then show "n < 7" by (simp add: bit_take_bit_iff)
qed

lemma small_iff: "(v AND NOT 0x7F = 0) \<longleftrightarrow> unat v < 128" for v :: int32
proof -
  have "(v AND NOT 0x7F = 0) \<longleftrightarrow> take_bit 7 v = v"
    by (auto simp: bit_eq_iff bit_simps bit_127 dest: bit_imp_le_length)
  then show ?thesis by (simp add: take7_iff)
qed

lemma small_iff': "(v AND - 128 = 0) \<longleftrightarrow> unat v < 128" for v :: int32
  using small_iff [of v] by simp

lemma last_byte_flag: "unat v < 128 \<Longrightarrow> (ucast v :: byte) AND 0x80 = 0" for v :: int32
  by (rule bit_word_eqI) (auto simp: bit_simps bit_128 dest: small_bits)

lemma last_byte_val: "unat v < 128 \<Longrightarrow> (ucast ((ucast v :: byte) AND 0x7F) :: int32) = v" for v :: int32
  by (rule bit_word_eqI) (auto simp: bit_simps bit_127 dest: small_bits)

lemma cont_byte_flag: "(ucast (v AND 0x7F OR 0x80) :: byte) AND 0x80 \<noteq> 0" for v :: int32
proof -
  have "bit ((ucast (v AND 0x7F OR 0x80) :: byte) AND 0x80) 7"
    by (simp add: bit_simps bit_128)
  then show ?thesis by auto
qed

lemma cont_byte_val: "(ucast ((ucast (v AND 0x7F OR 0x80) :: byte) AND 0x7F) :: int32) = v AND 0x7F" for v :: int32
  by (rule bit_word_eqI) (auto simp: bit_simps bit_127 bit_128)

lemma reassemble: "pos + 7 < 32 \<Longrightarrow>
  acc OR push_bit pos (v AND 0x7F) OR push_bit (pos + 7) (drop_bit 7 v) = acc OR push_bit pos v" for v :: int32
proof (rule bit_word_eqI)
  fix n
  assume p: "pos + 7 < 32" and n: "n < LENGTH(32)"
  have "pos + 7 \<le> n \<Longrightarrow> 7 + (n - (pos + 7)) = n - pos" by simp
  then show "bit (acc OR push_bit pos (v AND 0x7F) OR push_bit (pos + 7) (drop_bit 7 v)) n
      = bit (acc OR push_bit pos v) n"
    using p n by (cases "pos + 7 \<le> n") (auto simp: bit_simps bit_127)
qed

lemma nonneg_shift:
  fixes v :: int32
  assumes "0 \<le> sint v"
  shows "signed_drop_bit 7 v = drop_bit 7 v" and "0 \<le> sint (drop_bit 7 v)"
proof -
  have nb: "\<not> bit v 31" using assms bit_last_iff [of v] by simp
  show "signed_drop_bit 7 v = drop_bit 7 v"
    by (rule bit_word_eqI) (use nb in \<open>auto simp: bit_simps dest: bit_imp_le_length\<close>)
  have "\<not> bit (drop_bit 7 v) 31" by (auto simp: bit_simps dest: bit_imp_le_length)
  then show "0 \<le> sint (drop_bit 7 v)" using bit_last_iff [of "drop_bit 7 v"] by simp
qed

text \<open>
  For a value that is not negative the two loops are inverse: started at bit position
  \<open>pos\<close> with a value that fits into the remaining bits, the writer appends at most
  \<open>(38 - pos) div 7\<close> bytes, and the reader, started at the same position on those
  bytes, returns the value and leaves what follows them.
\<close>

lemma VarInt_loops_nonneg:
  fixes v :: int32
  assumes "0 \<le> sint v" "pos < 32" "unat v < 2 ^ (32 - pos)"
  shows "\<exists>bs. WriteVarInt_loop v buf = Some (buf @ bs) \<and> length bs \<le> (38 - pos) div 7
     \<and> (\<forall>acc rest. ReadVarInt_loop (bs @ rest) acc pos = Inr (acc OR push_bit pos v, rest))"
  using assms
proof (induction "unat v" arbitrary: v pos buf rule: less_induct)
  case less
  show ?case
  proof (cases "unat v < 128")
    case True
    have w: "WriteVarInt_loop v buf = Some (buf @ [ucast v])"
      by (subst WriteVarInt_loop.simps) (simp add: small_iff' True)
    have r: "\<forall>acc rest. ReadVarInt_loop ([ucast v] @ rest) acc pos = Inr (acc OR push_bit pos v, rest)"
      by (simp add: Let_def last_byte_flag [OF True] last_byte_val [OF True])
    have l: "length [ucast v :: byte] \<le> (38 - pos) div 7"
      using less.prems(2) by simp
    from w r l show ?thesis by blast
  next
    case False
    let ?b = "ucast (v AND 0x7F OR 0x80) :: byte"
    have sd: "signed_drop_bit 7 v = drop_bit 7 v" and nn: "0 \<le> sint (drop_bit 7 v)"
      using nonneg_shift [OF less.prems(1)] by simp_all
    have "unat (drop_bit 7 v) = drop_bit 7 (unat v)"
      by (rule unat_drop_bit_eq)
    then have un: "unat (drop_bit 7 v) = unat v div 128"
      by (simp add: drop_bit_eq_div)
    have lt: "unat (drop_bit 7 v) < unat v"
      using False un by simp
    have p7: "pos + 7 < 32"
    proof (rule ccontr)
      assume "\<not> pos + 7 < 32"
      then have "32 - pos \<le> 7" by simp
      then have "(2::nat) ^ (32 - pos) \<le> 2 ^ 7" by (rule power_increasing) simp
      with less.prems(3) False show False by simp
    qed
    have "32 - pos = (32 - (pos + 7)) + 7" using p7 by simp
    then have "(2::nat) ^ (32 - pos) = 2 ^ (32 - (pos + 7)) * 2 ^ 7"
      by (simp only: power_add)
    then have "unat v < 2 ^ (32 - (pos + 7)) * 128"
      using less.prems(3) by simp
    then have "unat v div 128 < 2 ^ (32 - (pos + 7))"
      by (rule less_mult_imp_div_less)
    then have bd: "unat (drop_bit 7 v) < 2 ^ (32 - (pos + 7))"
      by (simp only: un)
    from less.hyps [OF lt nn p7 bd, of "buf @ [?b]"]
    obtain bs where bs: "WriteVarInt_loop (drop_bit 7 v) (buf @ [?b]) = Some ((buf @ [?b]) @ bs)"
        "length bs \<le> (38 - (pos + 7)) div 7"
        "\<forall>acc rest. ReadVarInt_loop (bs @ rest) acc (pos + 7)
            = Inr (acc OR push_bit (pos + 7) (drop_bit 7 v), rest)"
      by blast
    have w: "WriteVarInt_loop v buf = Some (buf @ (?b # bs))"
      by (subst WriteVarInt_loop.simps) (simp add: small_iff' False sd bs(1))
    have r: "\<forall>acc rest. ReadVarInt_loop ((?b # bs) @ rest) acc pos = Inr (acc OR push_bit pos v, rest)"
    proof (intro allI)
      fix acc rest
      have "ReadVarInt_loop ((?b # bs) @ rest) acc pos
          = ReadVarInt_loop (bs @ rest) (acc OR push_bit pos (v AND 0x7F)) (pos + 7)"
        using p7 by (simp add: Let_def cont_byte_flag cont_byte_val)
      also have "\<dots> = Inr ((acc OR push_bit pos (v AND 0x7F)) OR push_bit (pos + 7) (drop_bit 7 v), rest)"
        using bs(3) by blast
      also have "\<dots> = Inr (acc OR push_bit pos v, rest)"
        by (simp only: or.assoc reassemble [OF p7])
      finally show "ReadVarInt_loop ((?b # bs) @ rest) acc pos = Inr (acc OR push_bit pos v, rest)" .
    qed
    have l: "length (?b # bs) \<le> (38 - pos) div 7"
      using bs(2) p7 by simp
    from w r l show ?thesis by blast
  qed
qed

text \<open>
  So every \<open>int32\<close> from 0 up round-trips through at most 5 bytes; it is only the
  negative ones that \<open>WriteVarInt\<close> cannot encode.
\<close>

lemma VarInt_roundtrip_nonneg:
  fixes v :: int32
  assumes "0 \<le> sint v"
  shows "\<exists>bs. WriteVarInt v = Some bs \<and> length bs \<le> MaxVarIntLength
     \<and> ReadVarInt (bs @ rest) = Inr (v, rest)"
proof -
  have u: "unat v < 2 ^ (32 - 0)" using unsigned_less [of v, where 'a=nat] by simp
  have z: "(0::nat) < 32" by simp
  from VarInt_loops_nonneg [OF assms z u, of "[]"]
  obtain bs where bs: "WriteVarInt_loop v [] = Some ([] @ bs)" "length bs \<le> (38 - 0) div 7"
      "\<forall>acc rest. ReadVarInt_loop (bs @ rest) acc 0 = Inr (acc OR push_bit 0 v, rest)"
    by blast
  from bs(3) have "ReadVarInt_loop (bs @ rest) 0 0 = Inr (0 OR push_bit 0 v, rest)" by blast
  then have "ReadVarInt (bs @ rest) = Inr (v, rest)" by (simp add: ReadVarInt_def)
  moreover have "WriteVarInt v = Some bs" using bs(1) by (simp add: WriteVarInt_def)
  moreover have "length bs \<le> MaxVarIntLength" using bs(2) by (simp add: MaxVarIntLength_def)
  ultimately show ?thesis by blast
qed

lemma WriteVarInt_300: "WriteVarInt 300 = Some [0xAC, 0x02]"
  unfolding WriteVarInt_def
  apply (subst WriteVarInt_loop.simps)
  apply simp
  apply (subst WriteVarInt_loop.simps)
  apply simp
  done

text \<open>\<open>ReadVarInt\<close> does decode the 5-byte encoding of a negative value.\<close>

lemma ReadVarInt_minus_one: "ReadVarInt [0xFF, 0xFF, 0xFF, 0xFF, 0x0F] = Inr (- 1, [])"
  by (simp add: ReadVarInt_def)

text \<open>
  C3 (VarInt encode and decode are inverse for every \<open>int32\<close>, negative ones
  included, with at most 5 bytes written): for the negative value \<open>-1\<close> the loop of
  \<open>WriteVarInt\<close> never leaves, because the arithmetic shift keeps the sign bit and so
  \<open>value &^ 0x7F\<close> never becomes zero; no byte sequence is ever written.
\<close>

theorem WriteVarInt_minus_one_never_returns:
  "WriteVarInt (- 1) = None"
  using WriteVarInt_loop_negative by (simp add: WriteVarInt_def)

section \<open>Packet selector: results\<close>

lemma SelectPacketType_PlayerMove_iff:
  "SelectPacketType dataSize = PacketTypePlayerMove \<longleftrightarrow> dataSize \<le> 10"
  by (simp add: SelectPacketType_def MaxDataPerPlayerMove_def PacketTypePlayerMove_def
      PacketTypeCustomPayload_def)

text \<open>
  C2 (the selector picks PlayerMove exactly for sizes up to 9; size 9 gives PlayerMove
  and size 10 gives CustomPayload): on the code, size 9 gives PlayerMove, and size 10
  gives PlayerMove as well, not CustomPayload, because \<open>MaxDataPerPlayerMove\<close> is 10.
\<close>

theorem SelectPacketType_at_boundary:
  "SelectPacketType 9 = PacketTypePlayerMove
   \<and> SelectPacketType 10 = PacketTypePlayerMove
   \<and> SelectPacketType 10 \<noteq> PacketTypeCustomPayload
   \<and> SelectPacketType 11 = PacketTypeCustomPayload"
  by (simp add: SelectPacketType_def MaxDataPerPlayerMove_def PacketTypePlayerMove_def
      PacketTypeCustomPayload_def)

section \<open>Send path: results\<close>

lemma sendFrame_keeps_table:
  "streams (snd (sendFrame m frame)) = streams m
   \<and> nextStreamID (snd (sendFrame m frame)) = nextStreamID m
   \<and> streamsMu (snd (sendFrame m frame)) = streamsMu m
   \<and> closed (snd (sendFrame m frame)) = closed m"
  by (auto simp: sendFrame_def WritePacket_def Let_def split: sum.splits Packet.splits)

lemma sendFrame_writes_encoded:
  "\<not> closed m \<Longrightarrow> \<not> connBroken m \<Longrightarrow>
   sendFrame_encode (rand m (randPos m)) frame = Inr packet \<Longrightarrow>
   fst (sendFrame m frame) = None \<and> conn (snd (sendFrame m frame)) = conn m @ [packet]"
  by (auto simp: sendFrame_def WritePacket_def Let_def split: Packet.splits)

section \<open>Stream ids: results\<close>

text \<open>
  What the id generator does do: the id handed out is the counter's value, the counter
  then moves on by one and goes from \<open>0xFFFF\<close> to 1, so it is never 0 after a call.
\<close>

lemma uint16_wraps: "x + 1 = 0 \<longleftrightarrow> x = 0xFFFF" for x :: uint16
proof -
  have a: "x + 1 = 0 \<longleftrightarrow> x = - 1" by (simp add: eq_neg_iff_add_eq_0)
  have "(0xFFFF :: uint16) + 1 = 0" by simp
  then have b: "(0xFFFF :: uint16) = - 1" by (simp only: eq_neg_iff_add_eq_0)
  show ?thesis by (simp only: a b)
qed

lemma OpenStream_next_id:
  "\<not> closed m \<Longrightarrow> OpenStream m r wait = Some (res, m') \<Longrightarrow>
   nextStreamID m' = (if nextStreamID m = 0xFFFF then 1 else nextStreamID m + 1)"
  by (auto simp: OpenStream_def Let_def sendFrame_keeps_table closeStream_def uint16_wraps
      split: option.splits OpenWait.splits if_splits)

lemma OpenStream_next_id_nonzero:
  "\<not> closed m \<Longrightarrow> OpenStream m r wait = Some (res, m') \<Longrightarrow> nextStreamID m' \<noteq> 0"
  using uint16_wraps [of "nextStreamID m"] by (simp add: OpenStream_next_id)

lemma OpenStream_registers_next_id:
  "OpenStream m r wait = Some (Inr s, m') \<Longrightarrow>
   stream_id s = nextStreamID m \<and> streams m' (nextStreamID m) = Some r"
  by (auto simp: OpenStream_def Let_def sendFrame_keeps_table newStream_def closeStream_def
      split: if_splits option.splits OpenWait.splits)

text \<open>
  C4 (stream id 0 is never assigned; ids are distinct; the counter skips back to 1 on
  overflow): the counter of a new multiplexer starts at Go's zero value, so the first
  \<open>OpenStream\<close> registers and returns a stream with id 0.
\<close>

theorem OpenStream_first_id_is_zero:
  "\<exists>s m'. OpenStream (NewMultiplexer rnd) r SynAckArrived = Some (Inr s, m')
     \<and> stream_id s = 0 \<and> streams m' 0 = Some r \<and> nextStreamID m' = 1"
  by (simp add: OpenStream_def NewMultiplexer_def Let_def sendFrame_def sendFrame_encode_def
      SelectPacketType_def MaxDataPerPlayerMove_def EncodeFrame_def WritePacket_def
      newStream_def split: sum.splits)

section \<open>Reading from a stream: results\<close>

text \<open>
  C5 (the bytes that successive \<open>Read\<close> calls return are a prefix of the delivered
  chunks in arrival order; a short buffer must not reorder the rest of a chunk): two
  data frames deliver the chunks \<open>[1, 2]\<close> and \<open>[3]\<close> to an open stream; three
  \<open>Read\<close> calls with a one-byte buffer then return 1, 3, 2, because the unread rest
  of the first chunk is sent to the back of the queue.
\<close>

theorem Read_short_buffer_reorders:
  "handleFrame ((newStream 1)\<lparr>state := StreamStateOpen\<rparr>) m
      \<lparr>StreamID = 1, Sequence = 0, Flags = 0, Length = 2, Data = [1, 2]\<rparr>
     = [((newStream 1)\<lparr>state := StreamStateOpen, readBuf := [[1, 2]]\<rparr>, m)]
   \<and> handleFrame ((newStream 1)\<lparr>state := StreamStateOpen, readBuf := [[1, 2]]\<rparr>) m
      \<lparr>StreamID = 1, Sequence = 1, Flags = 0, Length = 1, Data = [3]\<rparr>
     = [((newStream 1)\<lparr>state := StreamStateOpen, readBuf := [[1, 2], [3]]\<rparr>, m)]
   \<and> Read ((newStream 1)\<lparr>state := StreamStateOpen, readBuf := [[1, 2], [3]]\<rparr>) 1 False
     = [((1, [1], None), (newStream 1)\<lparr>state := StreamStateOpen, readBuf := [[3], [2]]\<rparr>)]
   \<and> Read ((newStream 1)\<lparr>state := StreamStateOpen, readBuf := [[3], [2]]\<rparr>) 1 False
     = [((1, [3], None), (newStream 1)\<lparr>state := StreamStateOpen, readBuf := [[2]]\<rparr>)]
   \<and> Read ((newStream 1)\<lparr>state := StreamStateOpen, readBuf := [[2]]\<rparr>) 1 False
     = [((1, [2], None), (newStream 1)\<lparr>state := StreamStateOpen, readBuf := []\<rparr>)]"
  by (simp add: handleFrame_def HasFlag_def Read_def Read_data_def newStream_def
      readBufCap_def Let_def)

section \<open>Closing a stream: results\<close>

lemma Close_first:
  "\<not> closeOnce s \<Longrightarrow> \<not> streamsMu m \<Longrightarrow>
   \<exists>m'. Close s m
          = Some (None, s\<lparr>closeOnce := True, state := StreamStateClosed, closeCh := True\<rparr>, m')
        \<and> streams m' (stream_id s) = None"
  by (simp add: Close_def Let_def closeStream_def sendFrame_keeps_table)

lemma Close_again:
  "closeOnce s \<Longrightarrow> Close s m = Some (None, s, m)"
  by (simp add: Close_def)

lemma Close_blocks:
  "\<not> closeOnce s \<Longrightarrow> streamsMu m \<Longrightarrow> Close s m = None"
  by (simp add: Close_def Let_def closeStream_def sendFrame_keeps_table)

text \<open>
  Whenever \<open>Stream.Close\<close> returns, it returns \<open>nil\<close>, and a second call on the
  result returns \<open>nil\<close> and changes nothing; it returns on every multiplexer whose
  table lock is free, also when sending the FIN frame fails.
\<close>

lemma Close_nil_when_it_returns:
  "Close s m = Some (err, s', m') \<Longrightarrow> err = None \<and> Close s' m' = Some (None, s', m')"
  by (auto simp: Close_def Let_def split: if_splits option.splits)

lemma Close_returns_unlocked:
  "\<not> streamsMu m \<Longrightarrow> \<exists>s' m'. Close s m = Some (None, s', m')"
  using Close_first [of s m] Close_again [of s m] by (cases "closeOnce s") auto

lemma sendFrame_on_closed_multiplexer:
  "fst (sendFrame (m\<lparr>closed := True\<rparr>) frame) = Some ErrClosedPipe"
  by (simp add: sendFrame_def)

lemma sendFrame_FIN_on_broken_conn:
  "\<not> closed m \<Longrightarrow>
   fst (sendFrame (m\<lparr>connBroken := True\<rparr>)
          \<lparr>StreamID = i, Sequence = q, Flags = FlagFIN, Length = 0, Data = []\<rparr>)
     = Some (WritePacketError ConnWriteError)"
  by (simp add: sendFrame_def sendFrame_encode_def SelectPacketType_def MaxDataPerPlayerMove_def
      EncodeFrame_def WritePacket_def Let_def)

text \<open>
  \<open>Multiplexer.Close\<close> on an open multiplexer never returns when the first stream that
  its loop visits has not been closed before: the stream's \<open>Close\<close> runs with the table
  lock held.
\<close>

lemma Multiplexer_Close_blocks:
  "\<not> closed m \<Longrightarrow> \<not> closeOnce s \<Longrightarrow> Multiplexer_Close m (s # ss) = None"
  by (simp add: Multiplexer_Close_def Let_def Close_blocks)

text \<open>
  C10 (\<open>Stream.Close\<close> always returns \<open>nil\<close>, in any state, also when the FIN frame
  cannot be sent, and again on a repeated call): on the shutdown path the call does not
  return at all. \<open>Multiplexer.Close\<close> on a multiplexer with one open stream registered
  takes the table lock and calls that stream's \<open>Close\<close>, whose \<open>closeStream\<close> waits
  for the same lock for ever; neither call returns.
\<close>

theorem Close_under_Multiplexer_Close_never_returns:
  "Multiplexer_Close ((NewMultiplexer (\<lambda>_. zeroBase))\<lparr>streams := [1 \<mapsto> 0]\<rparr>)
      [(newStream 1)\<lparr>state := StreamStateOpen\<rparr>] = None
   \<and> Close ((newStream 1)\<lparr>state := StreamStateOpen\<rparr>)
        ((NewMultiplexer (\<lambda>_. zeroBase))
           \<lparr>streams := [1 \<mapsto> 0], streamsMu := True, closed := True\<rparr>) = None"
proof -
  have a: "\<not> closed ((NewMultiplexer (\<lambda>_. zeroBase))\<lparr>streams := [1 \<mapsto> 0]\<rparr>)"
    by (simp add: NewMultiplexer_def)
  have b: "\<not> closeOnce ((newStream 1)\<lparr>state := StreamStateOpen\<rparr>)"
    by (simp add: newStream_def)
  have c: "streamsMu ((NewMultiplexer (\<lambda>_. zeroBase))
           \<lparr>streams := [1 \<mapsto> 0], streamsMu := True, closed := True\<rparr>)"
    by simp
  from Multiplexer_Close_blocks [OF a b] Close_blocks [OF b c] show ?thesis by blast
qed

section \<open>Writing to a stream: results\<close>

text \<open>
  C8 (\<open>Stream.Write\<close> on a stream that is Closing or Closed returns a closed-pipe
  error and zero bytes written, and sends nothing): the call returns
  \<open>(0, io.ErrClosedPipe)\<close> and leaves the stream (state, sequence counter and all)
  and the multiplexer (connection, stream table and all) as they were.
\<close>

theorem Write_after_close:
  "state s = StreamStateClosing \<or> state s = StreamStateClosed \<Longrightarrow>
   Write s m p = ((0, Some ErrClosedPipe), s, m)"
  by (auto simp: Write_def)

theorem Write_after_close_witness:
  "state ((newStream 1)\<lparr>state := StreamStateClosed\<rparr>) = StreamStateClosed
   \<and> Write ((newStream 1)\<lparr>state := StreamStateClosed\<rparr>) (NewMultiplexer (\<lambda>_. zeroBase)) [1, 2, 3]
     = ((0, Some ErrClosedPipe), (newStream 1)\<lparr>state := StreamStateClosed\<rparr>,
        NewMultiplexer (\<lambda>_. zeroBase))"
  using Write_after_close [of "(newStream 1)\<lparr>state := StreamStateClosed\<rparr>"
      "NewMultiplexer (\<lambda>_. zeroBase)" "[1, 2, 3]"]
  by simp

section \<open>FIN and RST: results\<close>

lemma handleFrame_FIN_or_RST:
  "HasFlag frame FlagFIN \<or> HasFlag frame FlagRST \<Longrightarrow>
   \<not> (HasFlag frame FlagACK \<and> HasFlag frame FlagSYN) \<Longrightarrow>
   handleFrame s m frame = (case Close s m of None \<Rightarrow> [] | Some res \<Rightarrow> [snd res])"
  by (auto simp: handleFrame_def)

lemma Read_closed_may_EOF:
  "closeCh s \<Longrightarrow> ((0, [], Some EOF), s) \<in> set (Read s n d)"
  by (simp add: Read_def)

lemma Read_closed_drained:
  "closeCh s \<Longrightarrow> readBuf s = [] \<Longrightarrow> Read s n False = [((0, [], Some EOF), s)]"
  by (simp add: Read_def)

lemma Read_keeps_closed:
  "out \<in> set (Read s n d) \<Longrightarrow> closeCh (snd out) = closeCh s \<and> state (snd out) = state s"
  by (auto simp: Read_def Read_data_def Let_def split: list.splits if_splits)

text \<open>
  C7, as amended: a stream receives, from the read loop (which holds no lock of the
  stream table), a frame that carries FIN or RST and not both SYN and ACK. If the
  stream's \<open>Close\<close> has not been entered before, whatever its state, the state becomes
  Closed and the close signal is set; if it has, the frame changes nothing. Once the
  close signal is set, every \<open>Read\<close> can return end-of-stream, it does return
  end-of-stream when the queue is empty and the deadline has not fired, and no
  \<open>Read\<close> changes the state or the signal.
\<close>

theorem handleFrame_FIN_RST_closes:
  assumes fl: "HasFlag frame FlagFIN \<or> HasFlag frame FlagRST"
    and nsa: "\<not> (HasFlag frame FlagACK \<and> HasFlag frame FlagSYN)"
    and nl: "\<not> streamsMu m"
  shows "\<exists>s' m'. handleFrame s m frame = [(s', m')] \<and> closeOnce s'
    \<and> (if closeOnce s then s' = s \<and> m' = m
        else state s' = StreamStateClosed \<and> closeCh s')
    \<and> (closeCh s' \<longrightarrow>
          (\<forall>n d. ((0, [], Some EOF), s') \<in> set (Read s' n d))
          \<and> (readBuf s' = [] \<longrightarrow> (\<forall>n. Read s' n False = [((0, [], Some EOF), s')]))
          \<and> (\<forall>n d. \<forall>out \<in> set (Read s' n d).
                closeCh (snd out) \<and> state (snd out) = state s'))"
proof -
  have rd: "closeCh s' \<longrightarrow>
          (\<forall>n d. ((0, [], Some EOF), s') \<in> set (Read s' n d))
          \<and> (readBuf s' = [] \<longrightarrow> (\<forall>n. Read s' n False = [((0, [], Some EOF), s')]))
          \<and> (\<forall>n d. \<forall>out \<in> set (Read s' n d).
                closeCh (snd out) \<and> state (snd out) = state s')" for s'
    using Read_closed_may_EOF [of s'] Read_closed_drained [of s'] Read_keeps_closed [of _ s']
    by auto
  show ?thesis
  proof (cases "closeOnce s")
    case True
    then have "handleFrame s m frame = [(s, m)]"
      using handleFrame_FIN_or_RST [OF fl nsa, of s m] by (simp add: Close_again)
    with True rd [of s] show ?thesis by auto
  next
    case False
    let ?s' = "s\<lparr>closeOnce := True, state := StreamStateClosed, closeCh := True\<rparr>"
    from Close_first [OF False nl] obtain m' where "Close s m = Some (None, ?s', m')"
      by blast
    then have "handleFrame s m frame = [(?s', m')]"
      using handleFrame_FIN_or_RST [OF fl nsa, of s m] by simp
    with False rd [of ?s'] show ?thesis by auto
  qed
qed

theorem handleFrame_FIN_RST_closes_witness:
  "HasFlag \<lparr>StreamID = 1, Sequence = 0, Flags = FlagFIN, Length = 0, Data = []\<rparr> FlagFIN
   \<and> (\<exists>s' m'. handleFrame ((newStream 1)\<lparr>state := StreamStateOpen\<rparr>)
          (NewMultiplexer (\<lambda>_. zeroBase))
          \<lparr>StreamID = 1, Sequence = 0, Flags = FlagFIN, Length = 0, Data = []\<rparr> = [(s', m')]
        \<and> state s' = StreamStateClosed \<and> closeCh s'
        \<and> ((0, [], Some EOF), s') \<in> set (Read s' 4 False))"
proof -
  let ?f = "\<lparr>StreamID = 1, Sequence = 0, Flags = FlagFIN, Length = 0, Data = []\<rparr>"
  let ?s = "(newStream 1)\<lparr>state := StreamStateOpen\<rparr>"
  let ?m = "NewMultiplexer (\<lambda>_. zeroBase)"
  have f1: "HasFlag ?f FlagFIN"
    by (simp add: HasFlag_def FlagFIN_def)
  then have h1: "HasFlag ?f FlagFIN \<or> HasFlag ?f FlagRST" by simp
  have h2: "\<not> (HasFlag ?f FlagACK \<and> HasFlag ?f FlagSYN)"
    by (simp add: HasFlag_def FlagFIN_def FlagACK_def FlagSYN_def)
  have h3: "\<not> streamsMu ?m"
    by (simp add: NewMultiplexer_def)
  have h4: "\<not> closeOnce ?s"
    by (simp add: newStream_def)
  from handleFrame_FIN_RST_closes [OF h1 h2 h3, of ?s] h4
  obtain s' m' where r: "handleFrame ?s ?m ?f = [(s', m')]"
      "state s' = StreamStateClosed" "closeCh s'"
      "\<forall>n d. ((0, [], Some EOF), s') \<in> set (Read s' n d)"
    by auto
  from r(4) have "((0, [], Some EOF), s') \<in> set (Read s' 4 False)" by blast
  with r(1-3) f1 show ?thesis by blast
qed

text \<open>
  C7 as stated fails in three ways. A frame with the flags SYN, ACK and FIN together is
  taken as a SYN-ACK: the stream stays Open. After a FIN on an open stream that still
  has a chunk queued, \<open>Read\<close> may return that chunk rather than end-of-stream. And a
  stream that was closed and then set back to Open by a late SYN-ACK keeps the state
  Open when RST arrives, because the body of \<open>Close\<close> runs only once.
\<close>

theorem FIN_not_always_EOF:
  "HasFlag \<lparr>StreamID = 1, Sequence = 0, Flags = 0x07, Length = 0, Data = []\<rparr> FlagFIN
   \<and> map (state \<circ> fst)
        (handleFrame ((newStream 1)\<lparr>state := StreamStateOpen\<rparr>) (NewMultiplexer (\<lambda>_. zeroBase))
          \<lparr>StreamID = 1, Sequence = 0, Flags = 0x07, Length = 0, Data = []\<rparr>)
      = [StreamStateOpen]
   \<and> map fst
        (handleFrame ((newStream 1)\<lparr>state := StreamStateOpen, readBuf := [[9]]\<rparr>)
          (NewMultiplexer (\<lambda>_. zeroBase))
          \<lparr>StreamID = 1, Sequence = 0, Flags = FlagFIN, Length = 0, Data = []\<rparr>)
      = [(newStream 1)\<lparr>state := StreamStateClosed, readBuf := [[9]], closeCh := True,
            closeOnce := True\<rparr>]
   \<and> map fst
        (Read ((newStream 1)\<lparr>state := StreamStateClosed, readBuf := [[9]], closeCh := True,
            closeOnce := True\<rparr>) 1 False)
      = [(1, [9], None), (0, [], Some EOF)]
   \<and> map fst
        (handleFrame ((newStream 1)\<lparr>state := StreamStateClosed, closeCh := True,
            closeOnce := True\<rparr>) (NewMultiplexer (\<lambda>_. zeroBase))
          \<lparr>StreamID = 1, Sequence = 0, Flags = 0x03, Length = 0, Data = []\<rparr>)
      = [(newStream 1)\<lparr>state := StreamStateOpen, synAckCh := 1, closeCh := True,
            closeOnce := True\<rparr>]
   \<and> map (state \<circ> fst)
        (handleFrame ((newStream 1)\<lparr>state := StreamStateOpen, synAckCh := 1,
            closeCh := True, closeOnce := True\<rparr>) (NewMultiplexer (\<lambda>_. zeroBase))
          \<lparr>StreamID = 1, Sequence = 0, Flags = FlagRST, Length = 0, Data = []\<rparr>)
      = [StreamStateOpen]"
proof -
  let ?m = "NewMultiplexer (\<lambda>_. zeroBase)"
  let ?fin = "\<lparr>StreamID = 1, Sequence = 0, Flags = FlagFIN, Length = 0, Data = []\<rparr>"
  let ?rst = "\<lparr>StreamID = 1, Sequence = 0, Flags = FlagRST, Length = 0, Data = []\<rparr>"
  have a: "HasFlag \<lparr>StreamID = 1, Sequence = 0, Flags = 0x07, Length = 0, Data = []\<rparr> FlagFIN"
    by (simp add: HasFlag_def FlagFIN_def)
  have b: "map (state \<circ> fst)
        (handleFrame ((newStream 1)\<lparr>state := StreamStateOpen\<rparr>) ?m
          \<lparr>StreamID = 1, Sequence = 0, Flags = 0x07, Length = 0, Data = []\<rparr>)
      = [StreamStateOpen]"
    by (simp add: HasFlag_def FlagACK_def FlagSYN_def handleFrame_def)
  have f: "HasFlag ?fin FlagFIN \<or> HasFlag ?fin FlagRST"
    by (simp add: HasFlag_def FlagFIN_def)
  have g: "\<not> (HasFlag ?fin FlagACK \<and> HasFlag ?fin FlagSYN)"
    by (simp add: HasFlag_def FlagFIN_def FlagACK_def FlagSYN_def)
  have nl: "\<not> streamsMu ?m" by (simp add: NewMultiplexer_def)
  have nc: "\<not> closeOnce ((newStream 1)\<lparr>state := StreamStateOpen, readBuf := [[9]]\<rparr>)"
    by (simp add: newStream_def)
  from Close_first [OF nc nl] obtain m' where
    "Close ((newStream 1)\<lparr>state := StreamStateOpen, readBuf := [[9]]\<rparr>) ?m
       = Some (None, (newStream 1)\<lparr>state := StreamStateOpen, readBuf := [[9]],
            closeOnce := True, state := StreamStateClosed, closeCh := True\<rparr>, m')"
    by blast
  then have c: "map fst
        (handleFrame ((newStream 1)\<lparr>state := StreamStateOpen, readBuf := [[9]]\<rparr>) ?m ?fin)
      = [(newStream 1)\<lparr>state := StreamStateClosed, readBuf := [[9]], closeCh := True,
            closeOnce := True\<rparr>]"
    by (simp add: handleFrame_FIN_or_RST [OF f g] newStream_def)
  have d: "map fst
        (Read ((newStream 1)\<lparr>state := StreamStateClosed, readBuf := [[9]], closeCh := True,
            closeOnce := True\<rparr>) 1 False)
      = [(1, [9], None), (0, [], Some EOF)]"
    by (simp add: newStream_def Read_def Read_data_def)
  have e: "map fst
        (handleFrame ((newStream 1)\<lparr>state := StreamStateClosed, closeCh := True,
            closeOnce := True\<rparr>) ?m
          \<lparr>StreamID = 1, Sequence = 0, Flags = 0x03, Length = 0, Data = []\<rparr>)
      = [(newStream 1)\<lparr>state := StreamStateOpen, synAckCh := 1, closeCh := True,
            closeOnce := True\<rparr>]"
    by (simp add: HasFlag_def FlagACK_def FlagSYN_def handleFrame_def newStream_def)
  have f': "HasFlag ?rst FlagFIN \<or> HasFlag ?rst FlagRST"
    by (simp add: HasFlag_def FlagRST_def)
  have g': "\<not> (HasFlag ?rst FlagACK \<and> HasFlag ?rst FlagSYN)"
    by (simp add: HasFlag_def FlagRST_def FlagACK_def FlagSYN_def)
  have h: "map (state \<circ> fst)
        (handleFrame ((newStream 1)\<lparr>state := StreamStateOpen, synAckCh := 1,
            closeCh := True, closeOnce := True\<rparr>) ?m ?rst)
      = [StreamStateOpen]"
    by (simp add: handleFrame_FIN_or_RST [OF f' g'] Close_again)
  from a b c d e h show ?thesis by blast
qed

section \<open>Packet envelope: results\<close>

text \<open>A successful \<open>ReadVarInt\<close> consumes a non-empty prefix of the reader.\<close>

lemma ReadVarInt_loop_consumes:
  "ReadVarInt_loop r v pos = Inr (x, rest) \<Longrightarrow>
   \<exists>k. 0 < k \<and> k \<le> length r \<and> rest = drop k r"
proof (induction r v pos rule: ReadVarInt_loop.induct)
  case (1 val position)
  then show ?case by simp
next
  case (2 b r val position)
  show ?case
  proof (cases "b AND 0x80 = 0")
    case True
    with 2(2) have "rest = r" by (simp add: Let_def)
    then have "0 < (1::nat) \<and> 1 \<le> length (b # r) \<and> rest = drop 1 (b # r)" by simp
    then show ?thesis by blast
  next
    case False
    with 2(2) have nt: "\<not> 32 \<le> position + 7"
      by (auto simp: Let_def split: if_splits)
    with 2(2) False
    have "ReadVarInt_loop r (val OR push_bit position (ucast (b AND 0x7F))) (position + 7)
        = Inr (x, rest)"
      by (simp add: Let_def)
    from 2(1) [OF refl False nt this]
    obtain k where "0 < k" "k \<le> length r" "rest = drop k r" by blast
    then have "0 < Suc k \<and> Suc k \<le> length (b # r) \<and> rest = drop (Suc k) (b # r)" by simp
    then show ?thesis by blast
  qed
qed

lemma ReadPacketRaw_rejects_2MiB:
  "ReadPacketRaw ([0x80, 0x80, 0x80, 0x01] @ rest) = Inl (InvalidPacketLength 2097152)"
  by (simp add: ReadPacketRaw_def ReadVarInt_def)

text \<open>
  C6, as amended: once the length prefix \<open>len\<close> has been read, the packet is rejected
  as an invalid packet length exactly when \<open>len \<le> 0\<close> or \<open>len > 2097151\<close>
  (2^21 - 1). Decoding as a whole fails exactly when the length is rejected, or the
  reader holds fewer than \<open>len\<close> further bytes, or those bytes do not start with a
  well-formed VarInt type tag. Otherwise one call consumes exactly \<open>len\<close> bytes after
  the prefix, returns the type tag and the rest of those \<open>len\<close> bytes as the payload,
  and leaves the bytes after them in the reader.
\<close>

theorem ReadPacketRaw_envelope:
  assumes rv: "ReadVarInt r = Inr (len, r1)"
  shows "((\<exists>l. ReadPacketRaw r = Inl (InvalidPacketLength l)) \<longleftrightarrow>
            (sint len \<le> 0 \<or> 2097151 < sint len))
    \<and> (ReadPacketRaw r = Inl (InvalidPacketLength len) \<longleftrightarrow>
            (sint len \<le> 0 \<or> 2097151 < sint len))
    \<and> (isl (ReadPacketRaw r) \<longleftrightarrow>
            (sint len \<le> 0 \<or> 2097151 < sint len \<or> length r1 < nat (sint len)
             \<or> isl (ReadVarInt (take (nat (sint len)) r1))))
    \<and> (\<forall>packetID payload.
          0 < sint len \<and> sint len \<le> 2097151 \<and> nat (sint len) \<le> length r1
          \<and> ReadVarInt (take (nat (sint len)) r1) = Inr (packetID, payload)
          \<longrightarrow> ReadPacketRaw r = Inr (packetID, payload, drop (nat (sint len)) r1))"
  using rv by (auto simp: ReadPacketRaw_def ReadFull_def split: sum.splits)

theorem ReadPacketRaw_envelope_witness:
  "ReadVarInt [0x03, 0x1A, 0xAA, 0xBB, 0xCC] = Inr (3, [0x1A, 0xAA, 0xBB, 0xCC])
   \<and> ReadPacketRaw [0x03, 0x1A, 0xAA, 0xBB, 0xCC] = Inr (0x1A, [0xAA, 0xBB], [0xCC])"
proof -
  have rv: "ReadVarInt [0x03, 0x1A, 0xAA, 0xBB, 0xCC] = Inr (3, [0x1A, 0xAA, 0xBB, 0xCC])"
    by (simp add: ReadVarInt_def)
  have tg: "ReadVarInt (take (nat (sint (3::int32))) [0x1A, 0xAA, 0xBB, 0xCC])
      = Inr (0x1A, [0xAA, 0xBB])"
    by (simp add: ReadVarInt_def)
  show ?thesis using ReadPacketRaw_envelope [OF rv] rv tg by simp
qed

text \<open>
  C6 as stated fails at the length 2097152 (exactly 2 MiB, so not larger than 2 MiB):
  the packet is rejected although all its bytes are there. And a length inside the
  range does not make decoding succeed: a truncated packet fails as well.
\<close>

theorem ReadPacketRaw_2MiB_rejected:
  "ReadPacketRaw ([0x80, 0x80, 0x80, 0x01] @ replicate 2097152 0)
     = Inl (InvalidPacketLength 2097152)
   \<and> sint (2097152 :: int32) = 2097152
   \<and> ReadPacketRaw [0x05, 0x1A] = Inl (ReadPacketData ErrUnexpectedEOF)"
  by (simp add: ReadPacketRaw_rejects_2MiB ReadPacketRaw_def ReadVarInt_def ReadFull_def)

section \<open>Steganographic round trip: results\<close>

lemma Uint16_PutUint16: "Uint16 (PutUint16 v) = v"
  unfolding Uint16_def PutUint16_def
  by (rule bit_word_eqI) (auto simp: bit_simps dest: bit_imp_le_length)

lemma PutUint16_Uint16: "PutUint16 (Uint16 [a, b]) = [a, b]"
  apply (simp add: Uint16_def PutUint16_def)
  apply (intro conjI; rule bit_word_eqI)
  apply (auto simp: bit_simps dest: bit_imp_le_length)
  done

lemma PutUint32_Uint32: "PutUint32 (Uint32 [a, b, c, d]) = [a, b, c, d]"
  apply (simp add: Uint32_def PutUint32_def)
  apply (intro conjI; rule bit_word_eqI)
  apply (auto simp: bit_simps dest: bit_imp_le_length)
  done

text \<open>The masks of the encoder and the decoder.\<close>

lemma hi32: "(0xFFFFFFFF00000000 :: uint64) = NOT (mask 32)"
  by (simp add: mask_eq_exp_minus_1)

lemma lo32: "(0xFFFFFFFF :: uint64) = mask 32"
  by (simp add: mask_eq_exp_minus_1)

lemma hi16: "(0xFFFF0000 :: uint32) = NOT (mask 16)"
  by (simp add: mask_eq_exp_minus_1)

lemma lo16: "(0xFFFF :: uint32) = mask 16"
  by (simp add: mask_eq_exp_minus_1)

lemma decode_encode_double_bits:
  "(ucast ((base AND 0xFFFFFFFF00000000 OR ucast v) AND (0xFFFFFFFF :: uint64)) :: uint32) = v"
  unfolding hi32 lo32
  by (rule bit_word_eqI) (auto simp: bit_simps dest: bit_imp_le_length)

lemma decode_encode_float_bits:
  "(ucast ((base AND 0xFFFF0000 OR ucast v) AND (0xFFFF :: uint32)) :: uint16) = v"
  unfolding hi16 lo16
  by (rule bit_word_eqI) (auto simp: bit_simps dest: bit_imp_le_length)

lemma decodeDataFromDouble_encode:
  "decodeDataFromDouble (encodeDataInDouble base data)
     = (if length data \<ge> 4 then Uint32 data else Uint32 (padded 4 data))"
  by (simp add: decodeDataFromDouble_def encodeDataInDouble_def Let_def decode_encode_double_bits)

lemma decodeDataFromFloat_encode:
  "decodeDataFromFloat (encodeDataInFloat base data)
     = (if length data \<ge> 2 then Uint16 data else if length data = 1 then ucast (data ! 0) else 0)"
  by (simp add: decodeDataFromFloat_def encodeDataInFloat_def Let_def decode_encode_float_bits)

lemma replicate_small:
  "replicate 2 x = [x, x]" "replicate 3 x = [x, x, x]" "replicate 4 x = [x, x, x, x]"
  by (simp_all add: eval_nat_numeral)

lemma length_payloadStream: "length (payloadStream f) = 7 + length (Data f)"
  by (simp add: payloadStream_def PutUint16_def)

lemma list_cases_upto_9:
  assumes "length ds \<le> 9"
  obtains (0) "ds = []"
    | (1) a where "ds = [a]"
    | (2) a b where "ds = [a, b]"
    | (3) a b c where "ds = [a, b, c]"
    | (4) a b c d where "ds = [a, b, c, d]"
    | (5) a b c d e where "ds = [a, b, c, d, e]"
    | (6) a b c d e f where "ds = [a, b, c, d, e, f]"
    | (7) a b c d e f g where "ds = [a, b, c, d, e, f, g]"
    | (8) a b c d e f g h where "ds = [a, b, c, d, e, f, g, h]"
    | (9) a b c d e f g h j where "ds = [a, b, c, d, e, f, g, h, j]"
proof -
  from assms have "length ds = 0 \<or> length ds = 1 \<or> length ds = 2 \<or> length ds = 3
      \<or> length ds = 4 \<or> length ds = 5 \<or> length ds = 6 \<or> length ds = 7
      \<or> length ds = 8 \<or> length ds = 9"
    by arith
  then show ?thesis
    using that by (auto simp: eval_nat_numeral length_Suc_conv)
qed

lemma Uint16_bytes:
  "(ucast (drop_bit 8 (Uint16 [a, b])) :: byte) = a" "(ucast (Uint16 [a, b]) :: byte) = b"
  using PutUint16_Uint16 [of a b] by (simp_all add: PutUint16_def)

text \<open>
  A frame with at most 9 data bytes survives \<open>EncodeFrame\<close> and \<open>DecodeFrame\<close>,
  whatever the encoder draws: its payload stream has at most 16 bytes, which the three
  doubles and two floats carry; the decoder's bytes beyond it are not read.
\<close>

lemma PlayerMove_roundtrip:
  assumes "length ds \<le> 9"
  shows "\<exists>pkt. EncodeFrame rb \<lparr>StreamID = i, Sequence = q, Flags = fl,
              Length = of_nat (length ds), Data = ds\<rparr> = Inr pkt
     \<and> DecodeFrame pkt = Inr \<lparr>StreamID = i, Sequence = q, Flags = fl,
              Length = of_nat (length ds), Data = ds\<rparr>"
proof -
  obtain s0 s1 where s: "PutUint16 i = [s0, s1]" by (simp add: PutUint16_def)
  obtain q0 q1 where q: "PutUint16 q = [q0, q1]" by (simp add: PutUint16_def)
  have sid: "Uint16 [s0, s1] = i" using s Uint16_PutUint16 [of i] by simp
  have sq: "Uint16 [q0, q1] = q" using q Uint16_PutUint16 [of q] by simp
  have ln: "PutUint16 (of_nat n :: uint16) = [0, of_nat n]" if "n \<le> 9" for n :: nat
  proof -
    from that have "n \<in> {0, 1, 2, 3, 4, 5, 6, 7, 8, 9}" by auto
    then show ?thesis by (auto simp: PutUint16_def)
  qed
  have u: "Uint16 [0, x] = ucast x" for x by (simp add: Uint16_def)
  note defs = EncodeFrame_def MaxDataPerPlayerMove_def Let_def slice_def padded_def
    DecodeFrame_def decodeDataFromDouble_encode decodeDataFromFloat_encode PutUint32_Uint32
    PutUint16_Uint16 parseFrame_def HeaderSize_def payloadStream_def s q
    PutUint16_def [of "decodeDataFromFloat x" for x] replicate_small Uint16_bytes
  from assms show ?thesis
  proof (cases ds rule: list_cases_upto_9)
    case 0
    then show ?thesis using sid sq ln [of 0] by (simp add: defs u)
  next
    case 1
    then show ?thesis using sid sq ln [of 1] by (simp add: defs u)
  next
    case 2
    then show ?thesis using sid sq ln [of 2] by (simp add: defs u)
  next
    case 3
    then show ?thesis using sid sq ln [of 3] by (simp add: defs u)
  next
    case 4
    then show ?thesis using sid sq ln [of 4] by (simp add: defs u)
  next
    case 5
    then show ?thesis using sid sq ln [of 5] by (simp add: defs u)
  next
    case 6
    then show ?thesis using sid sq ln [of 6] by (simp add: defs u)
  next
    case 7
    then show ?thesis using sid sq ln [of 7] by (simp add: defs u)
  next
    case 8
    then show ?thesis using sid sq ln [of 8] by (simp add: defs u)
  next
    case 9
    then show ?thesis using sid sq ln [of 9] by (simp add: defs u)
  qed
qed

lemma parseFrame_payloadStream:
  assumes n: "length (Data f) < 65536" and l: "Length f = of_nat (length (Data f))"
  shows "parseFrame (payloadStream f) = Inr f"
proof -
  obtain s0 s1 where s: "PutUint16 (StreamID f) = [s0, s1]" by (simp add: PutUint16_def)
  obtain q0 q1 where q: "PutUint16 (Sequence f) = [q0, q1]" by (simp add: PutUint16_def)
  obtain l0 l1 where ll: "PutUint16 (Length f) = [l0, l1]" by (simp add: PutUint16_def)
  have sid: "Uint16 [s0, s1] = StreamID f" using s Uint16_PutUint16 [of "StreamID f"] by simp
  have sq: "Uint16 [q0, q1] = Sequence f" using q Uint16_PutUint16 [of "Sequence f"] by simp
  have lq: "Uint16 [l0, l1] = Length f" using ll Uint16_PutUint16 [of "Length f"] by simp
  have ps: "payloadStream f = [s0, s1, q0, q1, Flags f, l0, l1] @ Data f"
    using s q ll l by (simp add: payloadStream_def)
  have un: "unat (Length f) = length (Data f)"
    using n l by (simp add: unat_of_nat)
  have z: "Length f > 0 \<longleftrightarrow> Data f \<noteq> []"
    using un by (simp add: word_greater_zero_iff unat_eq_0 [symmetric] del: unat_eq_0)
  show ?thesis
    using sid sq lq un z
    by (simp add: parseFrame_def ps slice_def HeaderSize_def Let_def)
qed


lemma sendFrame_encode_small:
  "length (Data f) \<le> 10 \<Longrightarrow> sendFrame_encode rb f = map_sum id PlayerMove (EncodeFrame rb f)"
  by (simp add: sendFrame_encode_def SelectPacketType_def MaxDataPerPlayerMove_def)

lemma sendFrame_encode_large:
  "10 < length (Data f) \<Longrightarrow>
   sendFrame_encode rb f = Inr (CustomPayload \<lparr>cp_Channel = ''minecraft:brand'', cp_Data = payloadStream f\<rparr>)"
  by (simp add: sendFrame_encode_def SelectPacketType_def MaxDataPerPlayerMove_def
      PacketTypePlayerMove_def PacketTypeCustomPayload_def EncodeFrameInCustomPayload_def)

lemma CustomPayload_roundtrip:
  assumes "10 < length (Data f)" "length (Data f) < 65536" "Length f = of_nat (length (Data f))"
  shows "\<exists>pkt. sendFrame_encode rb f = Inr pkt \<and> readLoop_decode pkt = Inr f"
  using assms
  by (simp add: sendFrame_encode_large readLoop_decode_def DecodeFrameFromCustomPayload_def
      length_payloadStream HeaderSize_def parseFrame_payloadStream)

text \<open>
  The round trip in general: every frame whose \<open>Data\<close> has fewer than 65536 bytes,
  but not exactly 10, and whose \<open>Length\<close> field is the length of its \<open>Data\<close>.
\<close>

lemma steganographic_roundtrip_general:
  assumes n10: "length (Data f) \<noteq> 10"
    and n16: "length (Data f) < 65536"
    and len: "Length f = of_nat (length (Data f))"
  shows "\<exists>pkt. sendFrame_encode rb f = Inr pkt \<and> readLoop_decode pkt = Inr f"
proof (cases "length (Data f) \<le> 9")
  case True
  have f: "f = \<lparr>StreamID = StreamID f, Sequence = Sequence f, Flags = Flags f,
      Length = of_nat (length (Data f)), Data = Data f\<rparr>"
    using len by simp
  obtain pkt where "EncodeFrame rb f = Inr pkt" "DecodeFrame pkt = Inr f"
    using PlayerMove_roundtrip [OF True, of rb "StreamID f" "Sequence f" "Flags f"] f by metis
  then show ?thesis
    using True by (simp add: sendFrame_encode_small readLoop_decode_def)
next
  case False
  with n10 have "10 < length (Data f)" by simp
  then show ?thesis using n16 len by (rule CustomPayload_roundtrip)
qed

text \<open>
  Read as sizes of \<open>Data\<close>, which is what the send path's selector is given, the
  sizes 1, 9 and 1000 round-trip.
\<close>

lemma roundtrip_data_sizes_1_9_1000:
  assumes "length (Data f) \<in> {1, 9, 1000}" "Length f = of_nat (length (Data f))"
  shows "\<exists>pkt. sendFrame_encode rb f = Inr pkt \<and> readLoop_decode pkt = Inr f"
proof -
  from assms(1) have "length (Data f) \<noteq> 10" "length (Data f) < 65536" by auto
  then show ?thesis using assms(2) by (rule steganographic_roundtrip_general)
qed

text \<open>
  With 10 data bytes the payload stream has 17 bytes, and the 17th goes through the
  packet's flags byte, of which \<open>EncodeFrame\<close> keeps the two low bits only.
\<close>

lemma PlayerMove_ten_bytes:
  "\<exists>pkt. EncodeFrame rb \<lparr>StreamID = i, Sequence = q, Flags = fl, Length = 10,
              Data = [a, b, c, d, e, f, g, h, j, k]\<rparr> = Inr pkt
     \<and> DecodeFrame pkt = Inr \<lparr>StreamID = i, Sequence = q, Flags = fl, Length = 10,
              Data = [a, b, c, d, e, f, g, h, j, k AND 0x03]\<rparr>"
proof -
  obtain s0 s1 where s: "PutUint16 i = [s0, s1]" by (simp add: PutUint16_def)
  obtain q0 q1 where q: "PutUint16 q = [q0, q1]" by (simp add: PutUint16_def)
  have sid: "Uint16 [s0, s1] = i" using s Uint16_PutUint16 [of i] by simp
  have sq: "Uint16 [q0, q1] = q" using q Uint16_PutUint16 [of q] by simp
  have ln: "PutUint16 (10 :: uint16) = [0, 10]" by (simp add: PutUint16_def)
  have u: "Uint16 [0, x] = ucast x" for x by (simp add: Uint16_def)
  show ?thesis
    using sid sq ln
    by (simp add: EncodeFrame_def MaxDataPerPlayerMove_def Let_def slice_def padded_def
    DecodeFrame_def decodeDataFromDouble_encode decodeDataFromFloat_encode PutUint32_Uint32
    PutUint16_Uint16 parseFrame_def HeaderSize_def payloadStream_def s q
    replicate_small Uint16_bytes u)
qed

lemma ten_bytes_through_send_path:
  "\<exists>pkt. sendFrame_encode rb \<lparr>StreamID = i, Sequence = q, Flags = fl, Length = 10,
              Data = [a, b, c, d, e, f, g, h, j, k]\<rparr> = Inr pkt
     \<and> readLoop_decode pkt = Inr \<lparr>StreamID = i, Sequence = q, Flags = fl, Length = 10,
              Data = [a, b, c, d, e, f, g, h, j, k AND 0x03]\<rparr>"
proof -
  obtain pkt where p: "EncodeFrame rb \<lparr>StreamID = i, Sequence = q, Flags = fl, Length = 10,
              Data = [a, b, c, d, e, f, g, h, j, k]\<rparr> = Inr pkt"
     "DecodeFrame pkt = Inr \<lparr>StreamID = i, Sequence = q, Flags = fl, Length = 10,
              Data = [a, b, c, d, e, f, g, h, j, k AND 0x03]\<rparr>"
    using PlayerMove_ten_bytes [of rb i q fl a b c d e f g h j k] by blast
  have "sendFrame_encode rb \<lparr>StreamID = i, Sequence = q, Flags = fl, Length = 10,
              Data = [a, b, c, d, e, f, g, h, j, k]\<rparr> = Inr (PlayerMove pkt)"
    using p(1) by (simp add: sendFrame_encode_small)
  moreover have "readLoop_decode (PlayerMove pkt)
      = Inr \<lparr>StreamID = i, Sequence = q, Flags = fl, Length = 10,
              Data = [a, b, c, d, e, f, g, h, j, k AND 0x03]\<rparr>"
    using p(2) by (simp add: readLoop_decode_def)
  ultimately show ?thesis by blast
qed

text \<open>
  C1 (steganographic round trip for the sizes 1, 9, 10 and 1000, with any stream id,
  sequence number and flags: encoding the frame into the disguise that the send path
  selects and decoding the packet gives the frame back): at size 10 it does not. For a
  frame with the 10 data bytes \<open>1, .., 9, 0xFF\<close>, whatever its stream id, sequence
  number and flags and whatever the encoder draws, the send path selects PlayerMove,
  and the packet decodes to a frame whose last data byte is \<open>0x03\<close>.
\<close>

theorem roundtrip_fails_at_ten_data_bytes:
  "\<exists>pkt. sendFrame_encode rb \<lparr>StreamID = i, Sequence = q, Flags = fl, Length = 10,
              Data = [1, 2, 3, 4, 5, 6, 7, 8, 9, 0xFF]\<rparr> = Inr pkt
     \<and> readLoop_decode pkt = Inr \<lparr>StreamID = i, Sequence = q, Flags = fl, Length = 10,
              Data = [1, 2, 3, 4, 5, 6, 7, 8, 9, 0x03]\<rparr>
     \<and> readLoop_decode pkt \<noteq> Inr \<lparr>StreamID = i, Sequence = q, Flags = fl, Length = 10,
              Data = [1, 2, 3, 4, 5, 6, 7, 8, 9, 0xFF]\<rparr>"
proof -
  obtain pkt where p: "sendFrame_encode rb \<lparr>StreamID = i, Sequence = q, Flags = fl,
              Length = 10, Data = [1, 2, 3, 4, 5, 6, 7, 8, 9, 0xFF]\<rparr> = Inr pkt"
     "readLoop_decode pkt = Inr \<lparr>StreamID = i, Sequence = q, Flags = fl, Length = 10,
              Data = [1, 2, 3, 4, 5, 6, 7, 8, 9, 0xFF AND 0x03]\<rparr>"
    using ten_bytes_through_send_path [of rb i q fl 1 2 3 4 5 6 7 8 9 "0xFF"] by blast
  from p(2) have "readLoop_decode pkt = Inr \<lparr>StreamID = i, Sequence = q, Flags = fl,
              Length = 10, Data = [1, 2, 3, 4, 5, 6, 7, 8, 9, 0x03]\<rparr>"
    by simp
  with p(1) show ?thesis by simp
qed

text \<open>
  The same through \<open>Stream.Write\<close>: writing these 10 bytes to an open stream puts one
  packet on the connection, and it decodes to the data with the last byte \<open>0x03\<close>.
\<close>

lemma Write_loop_one_chunk:
  assumes "0 < length p" and "chunkSize_of (length p) = length p"
    and "fst (sendFrame m \<lparr>StreamID = stream_id s, Sequence = sequence s, Flags = 0,
              Length = of_nat (length p), Data = p\<rparr>) = None"
  shows "Write_loop s m p 0
     = ((length p, None), s\<lparr>sequence := sequence s + 1\<rparr>,
        snd (sendFrame m \<lparr>StreamID = stream_id s, Sequence = sequence s, Flags = 0,
              Length = of_nat (length p), Data = p\<rparr>))"
proof -
  have fin: "Write_loop s' m' p (length p) = ((length p, None), s', m')" for s' m'
    by (subst Write_loop.simps) (simp del: Write_loop.simps)
  show ?thesis
    using assms
    by (subst Write_loop.simps) (simp add: Let_def slice_def fin del: Write_loop.simps)
qed

lemma Write_ten_bytes:
  "\<exists>pkt. conn (snd (snd (Write ((newStream 1)\<lparr>state := StreamStateOpen\<rparr>)
        (NewMultiplexer (\<lambda>_. zeroBase)) [1, 2, 3, 4, 5, 6, 7, 8, 9, 0xFF]))) = [pkt]
     \<and> readLoop_decode pkt = Inr \<lparr>StreamID = 1, Sequence = 0, Flags = 0, Length = 10,
              Data = [1, 2, 3, 4, 5, 6, 7, 8, 9, 0x03]\<rparr>"
proof -
  let ?p = "[1, 2, 3, 4, 5, 6, 7, 8, 9, 0xFF] :: byte list"
  let ?s = "(newStream 1)\<lparr>state := StreamStateOpen\<rparr>"
  let ?f = "\<lparr>StreamID = 1, Sequence = 0, Flags = 0, Length = 10, Data = ?p\<rparr> :: Frame"
  let ?m = "NewMultiplexer (\<lambda>_. zeroBase)"
  obtain pkt where p: "sendFrame_encode zeroBase ?f = Inr pkt"
    "readLoop_decode pkt = Inr \<lparr>StreamID = 1, Sequence = 0, Flags = 0, Length = 10,
              Data = [1, 2, 3, 4, 5, 6, 7, 8, 9, 0xFF AND 0x03]\<rparr>"
    using ten_bytes_through_send_path [of zeroBase 1 0 0 1 2 3 4 5 6 7 8 9 "0xFF"] by blast
  from p(2) have dec: "readLoop_decode pkt = Inr \<lparr>StreamID = 1, Sequence = 0, Flags = 0,
              Length = 10, Data = [1, 2, 3, 4, 5, 6, 7, 8, 9, 0x03]\<rparr>"
    by simp
  have nc: "\<not> closed ?m" "\<not> connBroken ?m" "rand ?m (randPos ?m) = zeroBase" "conn ?m = []"
    by (simp_all add: NewMultiplexer_def)
  have sf: "fst (sendFrame ?m ?f) = None" "conn (snd (sendFrame ?m ?f)) = [pkt]"
    using sendFrame_writes_encoded [OF nc(1) nc(2), of ?f pkt] p(1) nc(3) nc(4) by simp_all
  have fr: "\<lparr>StreamID = stream_id ?s, Sequence = sequence ?s, Flags = 0,
              Length = of_nat (length ?p), Data = ?p\<rparr> = ?f"
    by (simp add: newStream_def)
  have cs: "chunkSize_of (length ?p) = length ?p"
    by (simp add: chunkSize_of_def GetMaxPayload_def SelectPacketType_def
        MaxDataPerPlayerMove_def PacketTypePlayerMove_def PacketTypeCustomPayload_def)
  have l: "0 < length ?p" by simp
  have st: "\<not> (state ?s = StreamStateClosed \<or> state ?s = StreamStateClosing)" by simp
  have "Write ?s ?m ?p = Write_loop ?s ?m ?p 0"
    using st by (simp only: Write_def if_False)
  also have "\<dots> = ((length ?p, None), ?s\<lparr>sequence := sequence ?s + 1\<rparr>,
      snd (sendFrame ?m ?f))"
    using Write_loop_one_chunk [OF l cs, of ?m ?s] sf(1) by (simp only: fr)
  finally have "conn (snd (snd (Write ?s ?m ?p))) = [pkt]"
    using sf(2) by (simp only: snd_conv)
  with dec show ?thesis by blast
qed

end
